theory Spec2Isabelle
  imports Main "HOL-Library.AList"
begin

section \<open>Python strings\<close>

text \<open>
  Strings are byte strings; the verbs and path segments the resolver sees are ASCII.
  \<open>str_lower\<close> and \<open>str_upper\<close> are \<^verbatim>\<open>str.lower\<close> and \<^verbatim>\<open>str.upper\<close> on ASCII letters.
\<close>

definition lower_char :: "char \<Rightarrow> char" where
  "lower_char c =
     (let n = (of_char c :: nat) in if 65 \<le> n \<and> n \<le> 90 then char_of (n + 32) else c)"

definition upper_char :: "char \<Rightarrow> char" where
  "upper_char c =
     (let n = (of_char c :: nat) in if 97 \<le> n \<and> n \<le> 122 then char_of (n - 32) else c)"

definition str_lower :: "string \<Rightarrow> string" where
  "str_lower s = map lower_char s"

definition str_upper :: "string \<Rightarrow> string" where
  "str_upper s = map upper_char s"

text \<open>\<^verbatim>\<open>sep.join(xs)\<close>.\<close>

fun join :: "string \<Rightarrow> string list \<Rightarrow> string" where
  "join sep [] = []"
| "join sep [x] = x"
| "join sep (x # y # ys) = x @ sep @ join sep (y # ys)"

text \<open>\<^verbatim>\<open>s.lstrip('_')\<close>: every leading underscore is removed.\<close>

definition lstrip_underscore :: "string \<Rightarrow> string" where
  "lstrip_underscore s = dropWhile (\<lambda>c. c = CHR ''_'') s"

text \<open>
  \<^verbatim>\<open>s.strip()\<close>: the ASCII characters for which \<^verbatim>\<open>str.isspace\<close> holds are removed
  at both ends.
\<close>

definition is_space :: "char \<Rightarrow> bool" where
  "is_space c =
     (c \<in> set [CHR '' '', CHR 0x09, CHR 0x0A, CHR 0x0B, CHR 0x0C, CHR 0x0D,
                CHR 0x1C, CHR 0x1D, CHR 0x1E, CHR 0x1F])"

definition strip :: "string \<Rightarrow> string" where
  "strip s = rev (dropWhile is_space (rev (dropWhile is_space s)))"

text \<open>
  \<^verbatim>\<open>s.split(sep)\<close> for a one-character separator: the pieces between the separators,
  empty pieces included, so that the empty string splits into one empty piece.
\<close>

fun split_acc :: "char \<Rightarrow> string \<Rightarrow> string \<Rightarrow> string list" where
  "split_acc sep acc [] = [rev acc]"
| "split_acc sep acc (c # cs) =
     (if c = sep then rev acc # split_acc sep [] cs else split_acc sep (c # acc) cs)"

definition split :: "char \<Rightarrow> string \<Rightarrow> string list" where
  "split sep s = split_acc sep [] s"

text \<open>\<^verbatim>\<open>os.path.basename\<close> (posixpath): what follows the last slash.\<close>

definition basename :: "string \<Rightarrow> string" where
  "basename p = rev (takeWhile (\<lambda>c. c \<noteq> CHR ''/'') (rev p))"

section \<open>Python values\<close>

text \<open>
  The exceptions the resolver can meet. All of them derive from \<^verbatim>\<open>Exception\<close>, so
  \<^verbatim>\<open>except Exception\<close> catches every value of this type; \<^verbatim>\<open>KeyboardInterrupt\<close> and
  \<^verbatim>\<open>SystemExit\<close> are outside the model.
\<close>

datatype exn =
    ModuleNotFoundError
  | ImportError
  | ValueError
  | AttributeError
  | TypeError
  | UnboundLocalError
  | KeyError
  | IndexError
  | SyntaxError
  | OtherException string

text \<open>\<^verbatim>\<open>urllib.parse.ParseResult\<close>.\<close>

record parse_result =
  scheme :: string
  netloc :: string
  path :: string
  params :: string
  query :: string
  fragment :: string

text \<open>A \<^verbatim>\<open>cgi.FieldStorage\<close> entry of a posted form, as far as \<^verbatim>\<open>do_POST\<close> reads it.\<close>

record field_storage =
  name :: string
  filename :: "string option"
  fvalue :: string

type_synonym fields = "(string \<times> field_storage list) list"

text \<open>The values passed to a handler as keyword arguments.\<close>

datatype pyval =
    Url parse_result
  | Query "(string \<times> string list) list"
  | Fields fields

type_synonym kwargs = "(string \<times> pyval) list"

text \<open>
  A plain function, known by its \<^verbatim>\<open>__module__\<close> and \<^verbatim>\<open>__name__\<close> (the two
  attributes the debug line of \<^verbatim>\<open>_save_action\<close> reads), and the callables that can sit
  in the \<^verbatim>\<open>_actions\<close> dict: a plain function (what \<^verbatim>\<open>serve(actions=...)\<close> puts there) or
  an \<^verbatim>\<open>Action\<close> object.
\<close>

datatype pyfunction = PyFunction (fn_module: string) (fn_name: string)

datatype callable =
    Function pyfunction
  | Action (handler: callable) (origin: string) (bound: kwargs)

text \<open>
  A loaded module: its \<^verbatim>\<open>__name__\<close> and the attributes \<^verbatim>\<open>hasattr\<close> and
  \<^verbatim>\<open>getattr\<close> can see. Attribute values are plain functions.
\<close>

record pymodule =
  mod_name :: string
  attrs :: "(string \<times> pyfunction) list"

definition hasattr :: "pymodule \<Rightarrow> string \<Rightarrow> bool" where
  "hasattr m n = (map_of (attrs m) n \<noteq> None)"

definition getattr :: "pymodule \<Rightarrow> string \<Rightarrow> pyfunction option" where
  "getattr m n = map_of (attrs m) n"

text \<open>\<^verbatim>\<open>d.update(e)\<close> on dicts kept as association lists in insertion order.\<close>

definition dict_update :: "('k \<times> 'v) list \<Rightarrow> ('k \<times> 'v) list \<Rightarrow> ('k \<times> 'v) list" where
  "dict_update d e = fold (\<lambda>(k, v). AList.update k v) e d"

section \<open>Action\<close>

definition action_identifier :: "string \<Rightarrow> string \<Rightarrow> string" where
  "action_identifier verb url = str_upper verb @ '' '' @ url"

text \<open>
  The outcome of calling a callable with the request as the one positional argument:
  the plain function that finally runs, and the keyword arguments it receives.
  \<^verbatim>\<open>Action.__call__\<close> copies its bound keyword arguments, updates the copy with the
  ones of the call and calls its handler.
\<close>

datatype invocation = Invoked pyfunction kwargs

fun call :: "callable \<Rightarrow> kwargs \<Rightarrow> invocation" where
  "call (Function f) kw = Invoked f kw"
| "call (Action h orig b) kw = call h (dict_update b kw)"

text \<open>The names of the keyword arguments bound in a callable, through nested Actions.\<close>

fun bound_names :: "callable \<Rightarrow> string set" where
  "bound_names (Function f) = {}"
| "bound_names (Action h orig b) = set (map fst b) \<union> bound_names h"

section \<open>The import machinery and the class-level state\<close>

text \<open>
  What \<^verbatim>\<open>spec.loader.load_module()\<close> or \<^verbatim>\<open>import_module\<close> does: it raises or
  returns the loaded module. What \<^verbatim>\<open>importlib.util.find_spec\<close> does for a module name:
  it raises, returns \<^verbatim>\<open>None\<close>, or returns a spec whose loader then behaves as recorded.
\<close>

datatype load_outcome = LoadRaises exn | Loaded pymodule

datatype spec_outcome = FindRaises exn | NoSpec | Spec load_outcome

text \<open>
  The world outside the resolver: the import system (its answers depend on
  \<^verbatim>\<open>sys.path\<close>, which the resolver appends to), \<^verbatim>\<open>os.path.abspath\<close>,
  \<^verbatim>\<open>os.path.isdir\<close>, \<^verbatim>\<open>urllib.parse.urlparse\<close> and \<^verbatim>\<open>urllib.parse.parse_qs\<close>.
\<close>

record env =
  find_spec :: "string list \<Rightarrow> string \<Rightarrow> spec_outcome"
  import_module :: "string list \<Rightarrow> string \<Rightarrow> load_outcome"
  abspath :: "string \<Rightarrow> string"
  isdir :: "string \<Rightarrow> bool"
  urlparse :: "string \<Rightarrow> parse_result"
  parse_qs :: "string \<Rightarrow> (string \<times> string list) list"

text \<open>
  An entry of \<^verbatim>\<open>action_sources\<close>: a string, a dict with string keys and values, or
  anything else.
\<close>

datatype action_source = Str string | Dict "(string \<times> string) list" | Other

text \<open>
  \<^verbatim>\<open>importlib.util.find_spec(item)\<close> as \<^verbatim>\<open>_load_action_modules\<close> calls it, with
  the configured item itself: the function starts with \<^verbatim>\<open>name.startswith('.')\<close>, which
  raises \<^verbatim>\<open>AttributeError\<close> for an item that is not a string.
\<close>

definition find_spec_item :: "env \<Rightarrow> string list \<Rightarrow> action_source \<Rightarrow> spec_outcome" where
  "find_spec_item e sp item =
     (case item of Str s \<Rightarrow> find_spec e sp s | _ \<Rightarrow> FindRaises AttributeError)"

text \<open>
  The attributes of the class \<^verbatim>\<open>ActionRequestHandler\<close> (set up by its metaclass) and
  \<^verbatim>\<open>sys.path\<close>. \<open>action_modules\<close> is \<^verbatim>\<open>None\<close> until the first load; then it maps
  a source key to the pair of the loaded module and its origin, in insertion order.
\<close>

type_synonym catalog = "(string \<times> pymodule \<times> string) list"

record state =
  action_sources :: "action_source list"
  actions :: "(string \<times> callable) list"
  fallback :: bool
  action_modules :: "catalog option"
  sys_path :: "string list"

text \<open>A request as the resolver reads it: \<^verbatim>\<open>self.command\<close> and \<^verbatim>\<open>self.path\<close>.\<close>

record request =
  command :: string
  request_path :: string

section \<open>The class-level interface\<close>

definition add_action :: "string \<Rightarrow> string \<Rightarrow> callable \<Rightarrow> string \<Rightarrow> state \<Rightarrow> state" where
  "add_action verb url h orig st =
     st\<lparr>actions := AList.update (action_identifier verb url) (Action h orig []) (actions st)\<rparr>"

definition remove_action :: "string \<Rightarrow> string \<Rightarrow> state \<Rightarrow> exn + state" where
  "remove_action verb url st =
     (if map_of (actions st) (action_identifier verb url) = None then Inl KeyError
      else Inr (st\<lparr>actions := AList.delete (action_identifier verb url) (actions st)\<rparr>))"

definition enable_fallback :: "bool \<Rightarrow> state \<Rightarrow> state" where
  "enable_fallback status st = st\<lparr>fallback := status\<rparr>"

section \<open>Loading the sources\<close>

text \<open>
  One round of the loop of \<^verbatim>\<open>_load_action_modules\<close>, on the catalog built so far and
  \<^verbatim>\<open>sys.path\<close>. The first component is the exception that leaves the loop, if any:
  only \<^verbatim>\<open>ModuleNotFoundError\<close> is caught.
\<close>

definition source_name :: "action_source \<Rightarrow> string option" where
  "source_name item =
     (case item of
        Dict d \<Rightarrow>
          (case map_of d ''module'' of
             Some n \<Rightarrow> Some n
           | None \<Rightarrow> (case map_of d ''package'' of Some n \<Rightarrow> Some n | None \<Rightarrow> None))
      | Str s \<Rightarrow> Some s
      | Other \<Rightarrow> None)"

definition source_path :: "action_source \<Rightarrow> string option" where
  "source_path item =
     (case item of
        Dict d \<Rightarrow>
          (if map_of d ''module'' = None \<and> map_of d ''package'' = None
           then map_of d ''path'' else None)
      | _ \<Rightarrow> None)"

definition truthy :: "string option \<Rightarrow> bool" where
  "truthy x = (case x of None \<Rightarrow> False | Some s \<Rightarrow> s \<noteq> [])"

definition load_source ::
  "env \<Rightarrow> action_source \<Rightarrow> catalog \<times> string list \<Rightarrow> exn option \<times> catalog \<times> string list" where
  "load_source e item ms =
     (let (mods, sp) = ms; name = source_name item; path = source_path item in
      if truthy name then
        (case find_spec_item e sp item of
           FindRaises x \<Rightarrow> (if x = ModuleNotFoundError then None else Some x, mods, sp)
         | NoSpec \<Rightarrow> (None, mods, sp)
         | Spec (LoadRaises x) \<Rightarrow> (if x = ModuleNotFoundError then None else Some x, mods, sp)
         | Spec (Loaded m) \<Rightarrow> (None, AList.update (the name) (m, ''module'') mods, sp))
      else if truthy path then
        (let abs_path = abspath e (the path); sp' = sp @ [abs_path] in
         case import_module e sp' (basename abs_path) of
           LoadRaises x \<Rightarrow> (if x = ModuleNotFoundError then None else Some x, mods, sp')
         | Loaded m \<Rightarrow> (None, AList.update (the path) (m, ''path'') mods, sp'))
      else (None, mods, sp))"

fun load_sources ::
  "env \<Rightarrow> action_source list \<Rightarrow> catalog \<times> string list \<Rightarrow> exn option \<times> catalog \<times> string list" where
  "load_sources e [] ms = (None, ms)"
| "load_sources e (item # items) ms =
     (case load_source e item ms of
        (Some x, ms') \<Rightarrow> (Some x, ms')
      | (None, ms') \<Rightarrow> load_sources e items ms')"

text \<open>
  \<^verbatim>\<open>_load_action_modules\<close>: nothing when the catalog is already there; otherwise the
  catalog is set to the empty dict and filled in place, so an exception that escapes
  leaves the part filled so far.
\<close>

definition load_action_modules :: "env \<Rightarrow> state \<Rightarrow> exn option \<times> state" where
  "load_action_modules e st =
     (if action_modules st \<noteq> None then (None, st)
      else (case load_sources e (action_sources st) ([], sys_path st) of
              (r, mods, sp) \<Rightarrow> (r, st\<lparr>action_modules := Some mods, sys_path := sp\<rparr>)))"

section \<open>Descent\<close>

text \<open>
  The loop of \<^verbatim>\<open>_find_module\<close> for a source of origin \<^verbatim>\<open>'module'\<close>: the next part is
  looked up under the name of the current module; \<^verbatim>\<open>ModuleNotFoundError\<close> and
  \<^verbatim>\<open>ValueError\<close> of the lookup and every exception of the load put the part back and
  end the loop.
\<close>

fun descend_module ::
  "env \<Rightarrow> string list \<Rightarrow> pymodule \<Rightarrow> string list \<Rightarrow> exn + (pymodule \<times> string list)" where
  "descend_module e sp module [] = Inr (module, [])"
| "descend_module e sp module (part # parts) =
     (case find_spec e sp (mod_name module @ ''.'' @ part) of
        FindRaises x \<Rightarrow>
          (if x = ModuleNotFoundError \<or> x = ValueError then Inr (module, part # parts)
           else Inl x)
      | NoSpec \<Rightarrow> Inr (module, part # parts)
      | Spec (LoadRaises x) \<Rightarrow> Inr (module, part # parts)
      | Spec (Loaded m) \<Rightarrow> descend_module e sp m parts)"

text \<open>
  The branch for origin \<^verbatim>\<open>'path'\<close>. Nothing assigns the local variable \<^verbatim>\<open>base\<close> before
  the loop, so it is an option that starts unbound, and reading it unbound raises
  \<^verbatim>\<open>UnboundLocalError\<close>. The loop walks into \<^verbatim>\<open>os.path.join(base, part)\<close> while that is
  a directory and puts the part back when it is not.
\<close>

definition path_join :: "string \<Rightarrow> string \<Rightarrow> string" where
  "path_join a b =
     (if b \<noteq> [] \<and> hd b = CHR ''/'' then b
      else if a = [] \<or> last a = CHR ''/'' then a @ b
      else a @ ''/'' @ b)"

fun walk_dirs :: "env \<Rightarrow> string option \<Rightarrow> string list \<Rightarrow> exn + (string option \<times> string list)" where
  "walk_dirs e base [] = Inr (base, [])"
| "walk_dirs e base (part # parts) =
     (case base of
        None \<Rightarrow> Inl UnboundLocalError
      | Some b \<Rightarrow>
          (let try_dir = path_join b part in
           if \<not> isdir e try_dir then Inr (base, part # parts)
           else walk_dirs e (Some try_dir) parts))"

text \<open>
  After the loop \<^verbatim>\<open>os.path.abspath(base)\<close> is appended to \<^verbatim>\<open>sys.path\<close>, the next part
  is popped (\<^verbatim>\<open>IndexError\<close> when none is left) and imported as the module.
\<close>

definition descend_path ::
  "env \<Rightarrow> state \<Rightarrow> string list \<Rightarrow> (exn + (pymodule \<times> string list)) \<times> state" where
  "descend_path e st parts =
     (case walk_dirs e None parts of
        Inl x \<Rightarrow> (Inl x, st)
      | Inr (base, parts') \<Rightarrow>
          (case base of
             None \<Rightarrow> (Inl UnboundLocalError, st)
           | Some b \<Rightarrow>
               (let st' = st\<lparr>sys_path := sys_path st @ [abspath e b]\<rparr> in
                case parts' of
                  [] \<Rightarrow> (Inl IndexError, st')
                | file # rest \<Rightarrow>
                    (case import_module e (sys_path st') file of
                       LoadRaises x \<Rightarrow> (Inl x, st')
                     | Loaded m \<Rightarrow> (Inr (m, rest), st')))))"

text \<open>
  \<^verbatim>\<open>_find_module\<close>: the module reached and the parts left, or the exception raised,
  and the state, which the path branch changes through \<^verbatim>\<open>sys.path\<close>.
\<close>

definition find_module ::
  "env \<Rightarrow> state \<Rightarrow> string \<Rightarrow> string list \<Rightarrow> (exn + (pymodule \<times> string list)) \<times> state" where
  "find_module e st identifier parts =
     (case action_modules st of
        None \<Rightarrow> (Inl TypeError, st)
      | Some mods \<Rightarrow>
          (case map_of mods identifier of
             None \<Rightarrow> (Inl KeyError, st)
           | Some (module, orig) \<Rightarrow>
               if orig = ''module'' then (descend_module e (sys_path st) module parts, st)
               else if orig = ''path'' then descend_path e st parts
               else (Inr (module, parts), st)))"

section \<open>Matching\<close>

definition find_catchall :: "pymodule \<Rightarrow> string \<Rightarrow> pyfunction option" where
  "find_catchall module cmd =
     (if hasattr module (str_lower cmd) then getattr module (str_lower cmd)
      else if hasattr module ''any'' then getattr module ''any''
      else None)"

text \<open>The inner \<^verbatim>\<open>for prefix in prefixes\<close> of \<^verbatim>\<open>_find_action\<close>.\<close>

fun try_prefixes :: "pymodule \<Rightarrow> string \<Rightarrow> string list \<Rightarrow> pyfunction option" where
  "try_prefixes module function [] = None"
| "try_prefixes module function (prefix # prefixes) =
     (let try_function = lstrip_underscore (join ''_'' [prefix, function]) in
      if hasattr module try_function then getattr module try_function
      else try_prefixes module function prefixes)"

text \<open>
  The \<^verbatim>\<open>while parts\<close> loop of \<^verbatim>\<open>_find_action\<close>: the function found and the origin it
  is saved with, or nothing when the loop ends without a return.
\<close>

function match_parts ::
  "pymodule \<Rightarrow> string list \<Rightarrow> bool \<Rightarrow> string list \<Rightarrow> string list \<Rightarrow> (pyfunction \<times> string) option" where
  "match_parts module prefixes fb parts remainder =
     (if parts = [] then None
      else
        (case try_prefixes module (join ''_'' parts) prefixes of
           Some f \<Rightarrow> Some (f, if remainder = [] then ''direct'' else ''fallback'')
         | None \<Rightarrow>
             if \<not> fb then None
             else match_parts module prefixes fb (butlast parts) (last parts # remainder)))"
  by pat_completeness auto
termination
  by (relation "measure (\<lambda>(module, prefixes, fb, parts, remainder). length parts)") auto

section \<open>Resolution\<close>

definition parsed_url :: "env \<Rightarrow> request \<Rightarrow> parse_result" where
  "parsed_url e req = urlparse e (request_path req)"

definition request_identifier :: "env \<Rightarrow> request \<Rightarrow> string" where
  "request_identifier e req = action_identifier (command req) (path (parsed_url e req))"

text \<open>
  \<^verbatim>\<open>_save_action\<close>: a new Action with the parsed URL of the request bound as
  \<^verbatim>\<open>original_url\<close> is stored under the identifier and returned.
\<close>

definition save_action ::
  "env \<Rightarrow> request \<Rightarrow> string \<Rightarrow> pyfunction \<Rightarrow> string \<Rightarrow> state \<Rightarrow> callable \<times> state" where
  "save_action e req action_name method orig st =
     (let a = Action (Function method) orig [(''original_url'', Url (parsed_url e req))]
      in (a, st\<lparr>actions := AList.update action_name a (actions st)\<rparr>))"

text \<open>The parts of a path: \<^verbatim>\<open>list(filter(None, urlparse(path).path.split('/')))\<close>.\<close>

definition path_parts :: "env \<Rightarrow> string \<Rightarrow> string list" where
  "path_parts e p = filter (\<lambda>s. s \<noteq> []) (split CHR ''/'' (path (urlparse e p)))"

text \<open>
  The first loop of \<^verbatim>\<open>_find_action\<close>, over the keys of the catalog: the function to
  save and its origin, nothing when the loop ends, or the exception of \<^verbatim>\<open>_find_module\<close>,
  and the state.
\<close>

fun search_sources ::
  "env \<Rightarrow> state \<Rightarrow> string \<Rightarrow> string list \<Rightarrow> string \<Rightarrow> string list \<Rightarrow>
   (exn + (pyfunction \<times> string) option) \<times> state" where
  "search_sources e st cmd prefixes p [] = (Inr None, st)"
| "search_sources e st cmd prefixes p (identifier # identifiers) =
     (case find_module e st identifier (path_parts e p) of
        (Inl x, st') \<Rightarrow> (Inl x, st')
      | (Inr (module, parts), st') \<Rightarrow>
          if parts \<noteq> [] then
            (case match_parts module prefixes (fallback st') parts [] of
               Some r \<Rightarrow> (Inr (Some r), st')
             | None \<Rightarrow> search_sources e st' cmd prefixes p identifiers)
          else
            (case find_catchall module cmd of
               Some method \<Rightarrow> (Inr (Some (method, ''direct'')), st')
             | None \<Rightarrow> search_sources e st' cmd prefixes p identifiers))"

text \<open>The second loop, over the root modules of the catalog.\<close>

fun sweep_catchall :: "string \<Rightarrow> catalog \<Rightarrow> pyfunction option" where
  "sweep_catchall cmd [] = None"
| "sweep_catchall cmd ((k, module, orig) # rest) =
     (case find_catchall module cmd of
        Some method \<Rightarrow> Some method
      | None \<Rightarrow> sweep_catchall cmd rest)"

text \<open>The third loop, over the prefixes of the 404 actions.\<close>

fun find_404 :: "(string \<times> callable) list \<Rightarrow> string list \<Rightarrow> callable option" where
  "find_404 acts [] = None"
| "find_404 acts (prefix # prefixes) =
     (case map_of acts (strip (join '' '' [prefix, ''404''])) of
        Some h \<Rightarrow> Some (Action h ''error'' [])
      | None \<Rightarrow> find_404 acts prefixes)"

text \<open>
  \<^verbatim>\<open>_find_action\<close>: the result is the exception raised, \<^verbatim>\<open>None\<close>, or the object
  returned, together with the class-level state it leaves.
\<close>

definition find_action ::
  "env \<Rightarrow> request \<Rightarrow> string \<Rightarrow> state \<Rightarrow> (exn + callable option) \<times> state" where
  "find_action e req p st =
     (let action_name = request_identifier e req;
          prefixes = [str_lower (command req), ''any'', '''']
      in case load_action_modules e st of
           (Some x, st1) \<Rightarrow> (Inl x, st1)
         | (None, st1) \<Rightarrow>
             (case map_of (actions st1) action_name of
                Some a \<Rightarrow> (Inr (Some a), st1)
              | None \<Rightarrow>
                  (case action_modules st1 of
                     None \<Rightarrow> (Inl TypeError, st1)
                   | Some mods \<Rightarrow>
                       (case search_sources e st1 (command req) prefixes p (map fst mods) of
                          (Inl x, st2) \<Rightarrow> (Inl x, st2)
                        | (Inr (Some (method, orig)), st2) \<Rightarrow>
                            (case save_action e req action_name method orig st2 of
                               (a, st3) \<Rightarrow> (Inr (Some a), st3))
                        | (Inr None, st2) \<Rightarrow>
                            (case sweep_catchall (command req) mods of
                               Some method \<Rightarrow>
                                 (case save_action e req action_name method ''catchall'' st2 of
                                    (a, st3) \<Rightarrow> (Inr (Some a), st3))
                             | None \<Rightarrow>
                                 (Inr (find_404 (actions st2) [command req, ''ANY'', '''']),
                                  st2))))))"

section \<open>The request handler\<close>

text \<open>
  What \<^verbatim>\<open>_dispatch\<close> does to the outside: it calls the action with the request and the
  parameters, or sends the 404 error.
\<close>

datatype response = Called invocation | Sent404

definition nonempty :: "fields option \<Rightarrow> bool" where
  "nonempty d = (case d of None \<Rightarrow> False | Some l \<Rightarrow> l \<noteq> [])"

definition parameters_of :: "env \<Rightarrow> request \<Rightarrow> fields option \<Rightarrow> fields option \<Rightarrow> kwargs" where
  "parameters_of e req form files =
     (let p0 = [(''url'', Url (parsed_url e req))];
          p1 = (if query (parsed_url e req) \<noteq> []
                then AList.update ''query'' (Query (parse_qs e (query (parsed_url e req)))) p0
                else p0);
          p2 = (if nonempty form then AList.update ''form'' (Fields (the form)) p1 else p1);
          p3 = (if nonempty files then AList.update ''files'' (Fields (the files)) p2 else p2)
      in p3)"

text \<open>
  \<^verbatim>\<open>_dispatch\<close>. A plain function found in the \<^verbatim>\<open>_actions\<close> dict has no attribute
  \<^verbatim>\<open>origin\<close>, so reading it raises \<^verbatim>\<open>AttributeError\<close>.
\<close>

definition dispatch ::
  "env \<Rightarrow> request \<Rightarrow> fields option \<Rightarrow> fields option \<Rightarrow> state \<Rightarrow> (exn + response) \<times> state" where
  "dispatch e req form files st =
     (case find_action e req (request_path req) st of
        (Inl x, st') \<Rightarrow> (Inl x, st')
      | (Inr None, st') \<Rightarrow> (Inr Sent404, st')
      | (Inr (Some (Function f)), st') \<Rightarrow> (Inl AttributeError, st')
      | (Inr (Some (Action h orig b)), st') \<Rightarrow>
          (Inr (Called (call (Action h orig b) (parameters_of e req form files))), st'))"

text \<open>
  \<^verbatim>\<open>do_POST\<close>: the posted fields go to \<^verbatim>\<open>files\<close> when they have a file name and to
  \<^verbatim>\<open>form\<close> otherwise, each under its name in a list. \<^verbatim>\<open>fields.list\<close> is \<^verbatim>\<open>None\<close> for
  a body that is not a form, and the loop over it then raises \<^verbatim>\<open>TypeError\<close>.
\<close>

definition setdefault_append :: "fields \<Rightarrow> field_storage \<Rightarrow> fields" where
  "setdefault_append target f =
     (case map_of target (name f) of
        None \<Rightarrow> target @ [(name f, [f])]
      | Some l \<Rightarrow> AList.update (name f) (l @ [f]) target)"

fun sort_fields :: "field_storage list \<Rightarrow> fields \<times> fields \<Rightarrow> fields \<times> fields" where
  "sort_fields [] ff = ff"
| "sort_fields (f # fs) (form, files) =
     (if truthy (filename f) then sort_fields fs (form, setdefault_append files f)
      else sort_fields fs (setdefault_append form f, files))"

definition do_POST ::
  "env \<Rightarrow> request \<Rightarrow> field_storage list option \<Rightarrow> state \<Rightarrow> (exn + response) \<times> state" where
  "do_POST e req field_list st =
     (case field_list of
        None \<Rightarrow> (Inl TypeError, st)
      | Some l \<Rightarrow>
          (case sort_fields l ([], []) of
             (form, files) \<Rightarrow> dispatch e req (Some form) (Some files) st))"

definition do_GET :: "env \<Rightarrow> request \<Rightarrow> state \<Rightarrow> (exn + response) \<times> state" where
  "do_GET e req st = dispatch e req None None st"

text \<open>
  \<^verbatim>\<open>handle_expect_100\<close> unpacks what \<^verbatim>\<open>_find_action\<close> returns into a pair. The value is
  \<^verbatim>\<open>None\<close>, a plain function or an Action, none of which is iterable, so the
  unpacking raises \<^verbatim>\<open>TypeError\<close>.
\<close>

definition unpack_pair :: "callable option \<Rightarrow> exn + (callable option \<times> callable option)" where
  "unpack_pair r =
     (case r of
        None \<Rightarrow> Inl TypeError
      | Some (Function f) \<Rightarrow> Inl TypeError
      | Some (Action h orig b) \<Rightarrow> Inl TypeError)"

text \<open>
  The two ways \<^verbatim>\<open>handle_expect_100\<close> can return: after \<^verbatim>\<open>send_404\<close> with
  \<^verbatim>\<open>False\<close>, so that the request ends before its body is read, or through the base
  class, which sends the 100 response and lets the request go on.
\<close>

datatype expect_result = Rejected404 | Continue100

definition handle_expect_100 :: "env \<Rightarrow> request \<Rightarrow> state \<Rightarrow> (exn + expect_result) \<times> state" where
  "handle_expect_100 e req st =
     (case find_action e req (request_path req) st of
        (Inl x, st') \<Rightarrow> (Inl x, st')
      | (Inr r, st') \<Rightarrow>
          (case unpack_pair r of
             Inl x \<Rightarrow> (Inl x, st')
           | Inr (action, rest) \<Rightarrow>
               (case action of
                  None \<Rightarrow> (Inl AttributeError, st')
                | Some (Function f) \<Rightarrow> (Inl AttributeError, st')
                | Some (Action h orig b) \<Rightarrow>
                    if orig = ''error'' then (Inr Rejected404, st')
                    else (Inr Continue100, st'))))"

section \<open>The life of the process\<close>

text \<open>
  What happens to the class while the server runs: a request is resolved (by
  \<^verbatim>\<open>_dispatch\<close> or by \<^verbatim>\<open>handle_expect_100\<close>, both with \<^verbatim>\<open>self.path\<close>), or the
  program calls the class-level interface: \<^verbatim>\<open>add_action\<close>, \<^verbatim>\<open>remove_action\<close>,
  \<^verbatim>\<open>enable_fallback\<close>, or assigns to the properties \<^verbatim>\<open>actions\<close> and
  \<^verbatim>\<open>action_sources\<close>. An exception ends the request or the call, not the process.
\<close>

datatype event =
    Resolve request
  | AddAction string string callable string
  | RemoveAction string string
  | EnableFallback bool
  | SetActions "(string \<times> callable) list"
  | SetActionSources "action_source list"

fun step :: "env \<Rightarrow> event \<Rightarrow> state \<Rightarrow> state" where
  "step e (Resolve req) st = snd (find_action e req (request_path req) st)"
| "step e (AddAction verb url h orig) st = add_action verb url h orig st"
| "step e (RemoveAction verb url) st =
     (case remove_action verb url st of Inl x \<Rightarrow> st | Inr st' \<Rightarrow> st')"
| "step e (EnableFallback status) st = enable_fallback status st"
| "step e (SetActions d) st = st\<lparr>actions := d\<rparr>"
| "step e (SetActionSources l) st = st\<lparr>action_sources := l\<rparr>"

definition run :: "env \<Rightarrow> event list \<Rightarrow> state \<Rightarrow> state" where
  "run e evs st = fold (step e) evs st"

text \<open>The calls that write or delete the entry of an identifier in the dict of actions.\<close>

fun touches :: "string \<Rightarrow> event \<Rightarrow> bool" where
  "touches k (AddAction verb url h orig) = (action_identifier verb url = k)"
| "touches k (RemoveAction verb url) = (action_identifier verb url = k)"
| "touches k (SetActions d) = True"
| "touches k (Resolve req) = False"
| "touches k (EnableFallback status) = False"
| "touches k (SetActionSources l) = False"

section \<open>Example environments\<close>

text \<open>
  A \<^verbatim>\<open>urlparse\<close> for request paths without scheme, host, parameters or fragment: the
  query is what follows the first question mark. A \<^verbatim>\<open>parse_qs\<close> for a query of one
  \<^verbatim>\<open>key=value\<close> pair.
\<close>

definition example_urlparse :: "string \<Rightarrow> parse_result" where
  "example_urlparse u =
     \<lparr>scheme = [], netloc = [], path = takeWhile (\<lambda>c. c \<noteq> CHR ''?'') u, params = [],
      query = drop 1 (dropWhile (\<lambda>c. c \<noteq> CHR ''?'') u), fragment = []\<rparr>"

definition example_parse_qs :: "string \<Rightarrow> (string \<times> string list) list" where
  "example_parse_qs q =
     [(takeWhile (\<lambda>c. c \<noteq> CHR ''='') q, [drop 1 (dropWhile (\<lambda>c. c \<noteq> CHR ''='') q)])]"

text \<open>
  An import system given by two tables, whatever \<^verbatim>\<open>sys.path\<close> is: what
  \<^verbatim>\<open>find_spec\<close> answers for a name (no spec for a name not listed) and what
  \<^verbatim>\<open>import_module\<close> does (\<^verbatim>\<open>ModuleNotFoundError\<close> for a name not listed); no
  directory exists.
\<close>

definition env_of :: "(string \<times> spec_outcome) list \<Rightarrow> (string \<times> load_outcome) list \<Rightarrow> env" where
  "env_of specs imports =
     \<lparr>find_spec = (\<lambda>sp n. case map_of specs n of Some r \<Rightarrow> r | None \<Rightarrow> NoSpec),
      import_module =
        (\<lambda>sp n. case map_of imports n of Some r \<Rightarrow> r | None \<Rightarrow> LoadRaises ModuleNotFoundError),
      abspath = (\<lambda>p. ''/srv/'' @ p),
      isdir = (\<lambda>d. False),
      urlparse = example_urlparse,
      parse_qs = example_parse_qs\<rparr>"

text \<open>The class right after its creation by the metaclass, with the sources configured.\<close>

definition initial_state :: "action_source list \<Rightarrow> state" where
  "initial_state srcs =
     \<lparr>action_sources = srcs, actions = [], fallback = False, action_modules = None,
      sys_path = []\<rparr>"

definition GET :: "string \<Rightarrow> request" where
  "GET p = \<lparr>command = ''GET'', request_path = p\<rparr>"

definition POST :: "string \<Rightarrow> request" where
  "POST p = \<lparr>command = ''POST'', request_path = p\<rparr>"

text \<open>
  A directory \<^verbatim>\<open>handlers\<close> configured by its path; it defines \<^verbatim>\<open>get\<close> and has a
  subdirectory \<^verbatim>\<open>sub\<close>.
\<close>

definition handlers_module :: pymodule where
  "handlers_module = \<lparr>mod_name = ''handlers'', attrs = [(''get'', PyFunction ''handlers'' ''get'')]\<rparr>"

definition path_env :: env where
  "path_env =
     (env_of [] [(''handlers'', Loaded handlers_module)])
       \<lparr>isdir := (\<lambda>d. d \<in> set [''handlers/sub'', ''/srv/handlers/sub''])\<rparr>"

definition path_state :: state where
  "path_state = initial_state [Dict [(''path'', ''handlers'')]]"

text \<open>
  A package \<^verbatim>\<open>pkg\<close> configured by its name, without sub-modules. Three versions of
  it: one defines only the function \<^verbatim>\<open>a\<close>, one only \<^verbatim>\<open>_a\<close>, one both
  \<^verbatim>\<open>get_a_b\<close> and \<^verbatim>\<open>any_a_b\<close>.
\<close>

definition pkg_fn :: "string \<Rightarrow> string \<times> pyfunction" where
  "pkg_fn n = (n, PyFunction ''pkg'' n)"

definition pkg_module :: "string list \<Rightarrow> pymodule" where
  "pkg_module names = \<lparr>mod_name = ''pkg'', attrs = map pkg_fn names\<rparr>"

definition pkg_env :: "string list \<Rightarrow> env" where
  "pkg_env names = env_of [(''pkg'', Spec (Loaded (pkg_module names)))] []"

definition pkg_state :: "bool \<Rightarrow> state" where
  "pkg_state fb = enable_fallback fb (initial_state [Str ''pkg''])"

text \<open>
  The package \<^verbatim>\<open>pkg\<close> with handlers for missing actions registered through the
  \<^verbatim>\<open>actions\<close> property, the generic one first.
\<close>

definition not_found_handlers :: "(string \<times> callable) list" where
  "not_found_handlers =
     [(''ANY 404'', Function (PyFunction ''site'' ''any_missing'')),
      (''GET 404'', Function (PyFunction ''site'' ''get_missing''))]"


section \<open>The error lookup in the words of the specification\<close>




text \<open>The class once the package \<^verbatim>\<open>pkg\<close> of \<open>nested_env\<close> has been loaded.\<close>

definition nested_state :: state where
  "nested_state =
     (initial_state [Str ''pkg''])\<lparr>action_modules := Some [(''pkg'', pkg_module [], ''module'')]\<rparr>"


text \<open>
  Two configured sources besides \<^verbatim>\<open>pkg\<close>: \<^verbatim>\<open>missing\<close>, for which there is no spec, and
  \<^verbatim>\<open>broken\<close>, which is found and raises \<^verbatim>\<open>ImportError\<close> when it is loaded.
\<close>

definition broken_env :: env where
  "broken_env =
     env_of [(''broken'', Spec (LoadRaises ImportError)),
             (''pkg'', Spec (Loaded (pkg_module [''any''])))] []"

section \<open>A source that is not found\<close>

text \<open>
  The lookup of a configured module name finds nothing: \<^verbatim>\<open>find_spec\<close> returns no spec,
  or the lookup or the load raises \<^verbatim>\<open>ModuleNotFoundError\<close>.
\<close>

definition not_found :: "spec_outcome \<Rightarrow> bool" where
  "not_found r =
     (r = NoSpec \<or> r = FindRaises ModuleNotFoundError \<or>
      r = Spec (LoadRaises ModuleNotFoundError))"

section \<open>Descent in the words of the specification\<close>




section \<open>Basic facts\<close>



lemma walk_dirs_unbound:
  "walk_dirs e None parts =
     (case parts of [] \<Rightarrow> Inr (None, []) | part # rest \<Rightarrow> Inl UnboundLocalError)"
  by (cases parts) simp_all

lemma descend_path_raises: "descend_path e st parts = (Inl UnboundLocalError, st)"
  by (simp add: descend_path_def walk_dirs_unbound split: list.split)

lemma find_module_state: "snd (find_module e st identifier parts) = st"
  by (simp add: find_module_def descend_path_raises split: option.split prod.split)

lemma search_sources_state: "snd (search_sources e st cmd prefixes p identifiers) = st"
proof (induction identifiers)
  case Nil
  then show ?case by simp
next
  case (Cons ident idents)
  obtain r where fm: "find_module e st ident (path_parts e p) = (r, st)"
    using find_module_state[of e st ident "path_parts e p"] by (simp add: prod_eq_iff)
  show ?case
  proof (cases r)
    case (Inl x)
    with fm show ?thesis by simp
  next
    case (Inr mp)
    obtain module parts where "mp = (module, parts)" by (cases mp)
    with fm Inr Cons show ?thesis
      by (simp split: option.split)
  qed
qed

lemma unpack_pair_raises: "unpack_pair r = Inl TypeError"
  by (simp add: unpack_pair_def split: option.split callable.split)



section \<open>The structure of the resolution\<close>

lemma load_loaded: "action_modules st \<noteq> None \<Longrightarrow> load_action_modules e st = (None, st)"
  by (simp add: load_action_modules_def)

lemma load_result:
  assumes "load_action_modules e st = (r, st1)"
  shows "action_modules st1 \<noteq> None" "actions st1 = actions st" "fallback st1 = fallback st"
    "action_sources st1 = action_sources st"
  using assms by (auto simp: load_action_modules_def split: if_splits prod.splits)

lemma find_action_loaded:
  assumes "action_modules st = Some mods"
  shows "find_action e req p st =
     (case map_of (actions st) (request_identifier e req) of
        Some a \<Rightarrow> (Inr (Some a), st)
      | None \<Rightarrow>
         (case fst (search_sources e st (command req) [str_lower (command req), ''any'', '''']
                      p (map fst mods)) of
            Inl x \<Rightarrow> (Inl x, st)
          | Inr (Some (method, orig)) \<Rightarrow>
              (case save_action e req (request_identifier e req) method orig st of
                 (a, st2) \<Rightarrow> (Inr (Some a), st2))
          | Inr None \<Rightarrow>
              (case sweep_catchall (command req) mods of
                 Some method \<Rightarrow>
                   (case save_action e req (request_identifier e req) method ''catchall'' st of
                      (a, st2) \<Rightarrow> (Inr (Some a), st2))
               | None \<Rightarrow> (Inr (find_404 (actions st) [command req, ''ANY'', '''']), st))))"
proof -
  let ?ss = "search_sources e st (command req) [str_lower (command req), ''any'', '''']
               p (map fst mods)"
  have ss: "?ss = (fst ?ss, st)"
    using search_sources_state[of e st] by (simp add: prod_eq_iff)
  show ?thesis
  proof (cases "map_of (actions st) (request_identifier e req)")
    case None
    show ?thesis
      unfolding find_action_def Let_def load_loaded[of st e, simplified assms, simplified]
      using None assms
      apply simp
      apply (subst ss)
      apply (simp split: sum.split option.split prod.split)
      done
  next
    case (Some a)
    with assms show ?thesis
      by (simp add: find_action_def load_loaded Let_def)
  qed
qed

lemma find_action_unloaded:
  assumes "load_action_modules e st = (r, st1)"
  shows "find_action e req p st =
           (case r of Some x \<Rightarrow> (Inl x, st1) | None \<Rightarrow> find_action e req p st1)"
proof -
  have "load_action_modules e st1 = (None, st1)"
    using load_result(1)[OF assms] by (rule load_loaded)
  then show ?thesis using assms
    by (cases r) (simp_all add: find_action_def Let_def)
qed





section \<open>Descent into a source given by its path\<close>

text \<open>
  C7. The specification has descent from a path-origin handle walk into the subdirectories
  named by the segments, import the file module named by the next segment and return
  it with the remaining segments. The code never gets there: for every handle and every
  segment list the path branch of \<^verbatim>\<open>_find_module\<close> raises \<^verbatim>\<open>UnboundLocalError\<close>,
  and so does the resolution of \<^verbatim>\<open>GET /sub/mod\<close> once the directory \<^verbatim>\<open>handlers\<close> is
  a loaded source.
\<close>

theorem path_descent_raises:
  "descend_path e st parts = (Inl UnboundLocalError, st) \<and>
   fst (find_module e (st\<lparr>action_modules := Some ((k, module, ''path'') # mods)\<rparr>) k parts) =
     Inl UnboundLocalError \<and>
   fst (find_action path_env (GET ''/sub/mod'') ''/sub/mod'' path_state) = Inl UnboundLocalError"
proof -
  have "fst (find_action path_env (GET ''/sub/mod'') ''/sub/mod'' path_state)
          = Inl UnboundLocalError"
    by code_simp
  then show ?thesis
    by (simp add: descend_path_raises find_module_def)
qed

section \<open>The pre-flight check\<close>

text \<open>
  C8. The specification has \<^verbatim>\<open>handle_expect_100\<close> answer 404 without reading the body
  when the resolved Action has origin \<^verbatim>\<open>error\<close> and let the request go on otherwise.
  The code does neither: for every request and every state it ends in an exception,
  that of the resolution or the \<^verbatim>\<open>TypeError\<close> of unpacking its result into a pair.
\<close>

theorem handle_expect_100_raises:
  "\<exists>x. fst (handle_expect_100 e req st) = Inl x"
  by (simp add: handle_expect_100_def unpack_pair_raises split: prod.split sum.split)

section \<open>The function matcher\<close>

text \<open>
  The three names tried for a joined tail, when neither the lowercased verb nor the
  joined tail begins with an underscore: the verb-prefixed name, the \<^verbatim>\<open>any\<close>-prefixed
  name, the joined tail itself; the first that exists is returned.
\<close>

lemma try_prefixes_priority:
  assumes "v \<noteq> []" "hd v \<noteq> CHR ''_''" "fname \<noteq> []" "hd fname \<noteq> CHR ''_''"
  shows "try_prefixes m fname [v, ''any'', ''''] =
           (if hasattr m (v @ ''_'' @ fname) then getattr m (v @ ''_'' @ fname)
            else if hasattr m (''any_'' @ fname) then getattr m (''any_'' @ fname)
            else if hasattr m fname then getattr m fname
            else None)"
proof -
  from assms(1,2) have "lstrip_underscore (v @ ''_'' @ fname) = v @ ''_'' @ fname"
    by (cases v) (simp_all add: lstrip_underscore_def)
  moreover from assms(3,4) have "lstrip_underscore (''_'' @ fname) = fname"
    by (cases fname) (simp_all add: lstrip_underscore_def)
  moreover have "lstrip_underscore (''any_'' @ fname) = ''any_'' @ fname"
    by (simp add: lstrip_underscore_def)
  ultimately show ?thesis
    by (simp add: getattr_def hasattr_def)
qed

text \<open>
  C2. The specification says that for every non-empty tail the candidates are, in this order, the
  lowercased verb joined to the joined tail, \<^verbatim>\<open>any\<close> joined to it, and the bare joined
  tail, the first existing attribute winning. The third candidate is the joined tail
  with every leading underscore stripped: for \<^verbatim>\<open>GET /_a\<close> on a module that defines
  \<^verbatim>\<open>_a\<close>, the attribute named by the joined tail exists and no candidate finds it, so
  the resolution ends in a miss, while a module that defines \<^verbatim>\<open>a\<close> answers that same
  request with \<^verbatim>\<open>a\<close>.
\<close>

theorem underscore_tail_not_matched:
  "hasattr (pkg_module [''_a'']) (join ''_'' [''_a'']) \<and>
   try_prefixes (pkg_module [''_a'']) (join ''_'' [''_a'']) [str_lower ''GET'', ''any'', ''''] = None \<and>
   fst (find_action (pkg_env [''_a'']) (GET ''/_a'') ''/_a'' (pkg_state False)) = Inr None \<and>
   fst (find_action (pkg_env [''a'']) (GET ''/_a'') ''/_a'' (pkg_state False)) =
     Inr (Some (Action (Function (PyFunction ''pkg'' ''a'')) ''direct''
                  [(''original_url'', Url (example_urlparse ''/_a''))]))"
  by code_simp

section \<open>The fallback ladder\<close>

lemma match_parts_no_fallback:
  "parts \<noteq> [] \<Longrightarrow>
   match_parts m ps False parts rem =
     map_option (\<lambda>f. (f, if rem = [] then ''direct'' else ''fallback''))
       (try_prefixes m (join ''_'' parts) ps)"
  by (simp split: option.split)

text \<open>
  With fallback enabled, the loop returns the function found for the longest non-empty
  prefix of the tail that has a candidate; the origin is \<^verbatim>\<open>direct\<close> when that prefix
  is the whole tail and nothing was in the remainder before, \<^verbatim>\<open>fallback\<close> otherwise.
\<close>

lemma match_parts_ladder:
  "fb \<Longrightarrow> match_parts m ps fb parts rem = Some (f, orig) \<longleftrightarrow>
   (\<exists>k. 1 \<le> k \<and> k \<le> length parts \<and>
        try_prefixes m (join ''_'' (take k parts)) ps = Some f \<and>
        (\<forall>j. k < j \<and> j \<le> length parts \<longrightarrow>
             try_prefixes m (join ''_'' (take j parts)) ps = None) \<and>
        orig = (if k = length parts \<and> rem = [] then ''direct'' else ''fallback''))"
proof (induction m ps fb parts rem rule: match_parts.induct)
  case (1 m ps fb parts rem)
  note fb = \<open>fb\<close>
  let ?T = "\<lambda>xs. try_prefixes m (join ''_'' xs) ps"
  let ?R = "\<lambda>parts rem. \<exists>k. 1 \<le> k \<and> k \<le> length parts \<and> ?T (take k parts) = Some f \<and>
        (\<forall>j. k < j \<and> j \<le> length parts \<longrightarrow> ?T (take j parts) = None) \<and>
        orig = (if k = length parts \<and> rem = [] then ''direct'' else ''fallback'')"
  show ?case
  proof (cases "parts = []")
    case True
    then show ?thesis by simp
  next
    case ne: False
    then have len: "1 \<le> length parts" by (cases parts) simp_all
    show ?thesis
    proof (cases "?T parts")
      case (Some g)
      have L: "match_parts m ps fb parts rem =
                 Some (g, if rem = [] then ''direct'' else ''fallback'')"
        using ne Some fb by simp
      show ?thesis
      proof
        assume "match_parts m ps fb parts rem = Some (f, orig)"
        with L have "f = g" "orig = (if rem = [] then ''direct'' else ''fallback'')"
          by simp_all
        with Some len show "?R parts rem"
          by (intro exI[of _ "length parts"]) auto
      next
        assume "?R parts rem"
        then obtain k where k: "1 \<le> k" "k \<le> length parts" "?T (take k parts) = Some f"
          "\<forall>j. k < j \<and> j \<le> length parts \<longrightarrow> ?T (take j parts) = None"
          "orig = (if k = length parts \<and> rem = [] then ''direct'' else ''fallback'')"
          by blast
        have "k = length parts"
        proof (rule ccontr)
          assume "k \<noteq> length parts"
          with k(2) have "k < length parts" by simp
          with k(4) have "?T (take (length parts) parts) = None" by blast
          with Some show False by simp
        qed
        with k(3,5) Some L show "match_parts m ps fb parts rem = Some (f, orig)" by simp
      qed
    next
      case None
      have L: "match_parts m ps fb parts rem =
                 match_parts m ps fb (butlast parts) (last parts # rem)"
        using ne None fb by simp
      have nfb: "\<not> \<not> fb" using fb by simp
      note IH = 1(1)[OF ne None nfb fb]
      show ?thesis
      proof
        assume "match_parts m ps fb parts rem = Some (f, orig)"
        with L IH obtain k where k: "1 \<le> k" "k \<le> length (butlast parts)"
          "?T (take k (butlast parts)) = Some f"
          "\<forall>j. k < j \<and> j \<le> length (butlast parts) \<longrightarrow> ?T (take j (butlast parts)) = None"
          "orig = ''fallback''"
          by auto
        from k(2) have klt: "k < length parts" using len by simp
        have "\<forall>j. k < j \<and> j \<le> length parts \<longrightarrow> ?T (take j parts) = None"
        proof (intro allI impI)
          fix j assume j: "k < j \<and> j \<le> length parts"
          show "?T (take j parts) = None"
          proof (cases "j = length parts")
            case True
            with None show ?thesis by simp
          next
            case False
            with j have "j \<le> length (butlast parts)" by auto
            with k(4) j have "?T (take j (butlast parts)) = None" by blast
            moreover from False j have "take j (butlast parts) = take j parts"
              by (simp add: take_butlast)
            ultimately show ?thesis by simp
          qed
        qed
        moreover from klt have "take k (butlast parts) = take k parts"
          by (simp add: take_butlast)
        ultimately show "?R parts rem"
          using k klt by (intro exI[of _ k]) auto
      next
        assume "?R parts rem"
        then obtain k where k: "1 \<le> k" "k \<le> length parts" "?T (take k parts) = Some f"
          "\<forall>j. k < j \<and> j \<le> length parts \<longrightarrow> ?T (take j parts) = None"
          "orig = (if k = length parts \<and> rem = [] then ''direct'' else ''fallback'')"
          by blast
        have kne: "k \<noteq> length parts" using k(3) None by auto
        with k(2) have klt: "k < length parts" by simp
        then have tk: "take k (butlast parts) = take k parts" by (simp add: take_butlast)
        have "\<forall>j. k < j \<and> j \<le> length (butlast parts) \<longrightarrow>
                ?T (take j (butlast parts)) = None"
        proof (intro allI impI)
          fix j assume j: "k < j \<and> j \<le> length (butlast parts)"
          then have jlt: "j < length parts" using len by auto
          then have "take j (butlast parts) = take j parts" by (simp add: take_butlast)
          moreover from j jlt k(4) have "?T (take j parts) = None" by simp
          ultimately show "?T (take j (butlast parts)) = None" by simp
        qed
        with k kne klt tk have "?R (butlast parts) (last parts # rem)"
          by (intro exI[of _ k]) auto
        with IH L show "match_parts m ps fb parts rem = Some (f, orig)" by simp
      qed
    qed
  qed
qed

lemma only_a_fallback:
  assumes "attrs m = [(''a'', f)]"
  shows "match_parts m [''get'', ''any'', ''''] True [''a'', ''b''] [] = Some (f, ''fallback'')"
    and "match_parts m [''get'', ''any'', ''''] False [''a'', ''b''] [] = None"
  using assms by (simp_all add: hasattr_def getattr_def lstrip_underscore_def)

text \<open>
  C3. A module that defines only \<^verbatim>\<open>a\<close>: \<^verbatim>\<open>GET /a/b\<close> resolves to \<^verbatim>\<open>a\<close> with origin
  \<^verbatim>\<open>fallback\<close> when fallback is enabled and misses when it is disabled, in the
  matcher and in the whole resolution. In general: with fallback disabled only the
  full tail is tried; with fallback enabled the tail is shortened from its end until a
  candidate exists or it is empty, so the function of the longest non-empty prefix with
  a candidate is returned; the origin is \<^verbatim>\<open>direct\<close> when nothing was moved to the
  remainder and \<^verbatim>\<open>fallback\<close> otherwise.
\<close>

theorem fallback_ladder:
  "(attrs m = [(''a'', f)] \<longrightarrow>
      match_parts m [''get'', ''any'', ''''] True [''a'', ''b''] [] = Some (f, ''fallback'') \<and>
      match_parts m [''get'', ''any'', ''''] False [''a'', ''b''] [] = None) \<and>
   fst (find_action (pkg_env [''a'']) (GET ''/a/b'') ''/a/b'' (pkg_state True)) =
     Inr (Some (Action (Function (PyFunction ''pkg'' ''a'')) ''fallback''
                  [(''original_url'', Url (example_urlparse ''/a/b''))])) \<and>
   fst (find_action (pkg_env [''a'']) (GET ''/a/b'') ''/a/b'' (pkg_state False)) = Inr None \<and>
   (parts \<noteq> [] \<longrightarrow>
      match_parts m ps False parts rem =
        map_option (\<lambda>g. (g, if rem = [] then ''direct'' else ''fallback''))
          (try_prefixes m (join ''_'' parts) ps)) \<and>
   (match_parts m ps True parts rem = Some (g, orig) \<longleftrightarrow>
      (\<exists>k. 1 \<le> k \<and> k \<le> length parts \<and>
           try_prefixes m (join ''_'' (take k parts)) ps = Some g \<and>
           (\<forall>j. k < j \<and> j \<le> length parts \<longrightarrow>
                try_prefixes m (join ''_'' (take j parts)) ps = None) \<and>
           orig = (if k = length parts \<and> rem = [] then ''direct'' else ''fallback'')))"
proof -
  have "fst (find_action (pkg_env [''a'']) (GET ''/a/b'') ''/a/b'' (pkg_state True)) =
     Inr (Some (Action (Function (PyFunction ''pkg'' ''a'')) ''fallback''
                  [(''original_url'', Url (example_urlparse ''/a/b''))]))"
    by code_simp
  moreover have "fst (find_action (pkg_env [''a'']) (GET ''/a/b'') ''/a/b'' (pkg_state False))
                   = Inr None"
    by code_simp
  moreover note only_a_fallback[of m f] match_parts_no_fallback[of parts m ps rem]
    match_parts_ladder[of True m ps parts rem g orig]
  ultimately show ?thesis by blast
qed

theorem fallback_ladder_witness:
  "match_parts (pkg_module [''a'']) [''get'', ''any'', ''''] True [''a'', ''b''] [] =
     Some (PyFunction ''pkg'' ''a'', ''fallback'') \<and>
   match_parts (pkg_module [''a'']) [''get'', ''any'', ''''] False [''a'', ''b''] [] = None \<and>
   match_parts (pkg_module [''a'']) [''get'', ''any'', ''''] False [''a'', ''b''] [] =
     map_option (\<lambda>g. (g, if ([]::string list) = [] then ''direct'' else ''fallback''))
       (try_prefixes (pkg_module [''a'']) (join ''_'' [''a'', ''b'']) [''get'', ''any'', '''']) \<and>
   (\<exists>k. 1 \<le> k \<and> k \<le> length [''a'', ''b''] \<and>
        try_prefixes (pkg_module [''a'']) (join ''_'' (take k [''a'', ''b'']))
          [''get'', ''any'', ''''] = Some (PyFunction ''pkg'' ''a'') \<and>
        (\<forall>j. k < j \<and> j \<le> length [''a'', ''b''] \<longrightarrow>
             try_prefixes (pkg_module [''a'']) (join ''_'' (take j [''a'', ''b'']))
               [''get'', ''any'', ''''] = None) \<and>
        ''fallback'' = (if k = length [''a'', ''b''] \<and> ([]::string list) = []
                        then ''direct'' else ''fallback''))"
proof -
  have a: "attrs (pkg_module [''a'']) = [(''a'', PyFunction ''pkg'' ''a'')]"
    by (simp add: pkg_module_def pkg_fn_def)
  have ne: "[''a'', ''b''] \<noteq> []" by simp
  note t = fallback_ladder[where m = "pkg_module [''a'']" and f = "PyFunction ''pkg'' ''a''"
      and ps = "[''get'', ''any'', '''']" and parts = "[''a'', ''b'']" and rem = "[]"
      and g = "PyFunction ''pkg'' ''a''" and orig = "''fallback''"]
  from t a ne show ?thesis by blast
qed

section \<open>The error lookup\<close>



section \<open>The cache\<close>

lemma find_action_cached:
  assumes "action_modules st \<noteq> None" "map_of (actions st) (request_identifier e req) = Some a"
  shows "find_action e req p st = (Inr (Some a), st)"
proof -
  from assms(1) obtain mods where "action_modules st = Some mods" by auto
  from find_action_loaded[OF this] assms(2) show ?thesis by simp
qed



text \<open>What a resolution on a loaded catalog can return.\<close>
lemma find_action_loaded_cases:
  assumes "action_modules st = Some mods" "find_action e req p st = (r, st')"
  shows "(\<exists>a. map_of (actions st) (request_identifier e req) = Some a \<and> r = Inr (Some a) \<and> st' = st)
       \<or> (map_of (actions st) (request_identifier e req) = None \<and> (\<exists>x. r = Inl x) \<and> st' = st)
       \<or> (map_of (actions st) (request_identifier e req) = None \<and>
           (\<exists>method orig. r = Inr (Some (Action (Function method) orig [(''original_url'', Url (parsed_url e req))])) \<and>
              st' = st\<lparr>actions := AList.update (request_identifier e req)
                      (Action (Function method) orig [(''original_url'', Url (parsed_url e req))]) (actions st)\<rparr>))
       \<or> (map_of (actions st) (request_identifier e req) = None \<and>
           r = Inr (find_404 (actions st) [command req, ''ANY'', '''']) \<and> st' = st)"
  using assms(2) unfolding find_action_loaded[OF assms(1)]
  by (auto simp: save_action_def Let_def split: option.splits sum.splits prod.splits)

lemma find_action_state_loaded:
  assumes "find_action e req p st = (r, st')"
  shows "action_modules st' \<noteq> None"
proof -
  obtain r0 st1 where l: "load_action_modules e st = (r0, st1)" by force
  from load_result(1)[OF l] obtain mods where m: "action_modules st1 = Some mods" by auto
  show ?thesis
  proof (cases r0)
    case (Some x)
    with find_action_unloaded[OF l, of req p] assms m show ?thesis by simp
  next
    case None
    with find_action_unloaded[OF l, of req p] assms have "find_action e req p st1 = (r, st')" by simp
    from find_action_loaded_cases[OF m this] m show ?thesis by auto
  qed
qed

lemma find_404_not_stored: "find_404 acts ps = Some a \<Longrightarrow> bound a = [] \<and> origin a = ''error''"
  by (induction ps) (auto split: option.splits)



lemma find_action_keeps_entry:
  assumes "find_action e req p st = (r, st')" "map_of (actions st) k = Some a"
  shows "map_of (actions st') k = Some a"
proof -
  obtain r0 st1 where l: "load_action_modules e st = (r0, st1)" by force
  from load_result[OF l] obtain mods where m: "action_modules st1 = Some mods"
    and acts: "actions st1 = actions st" by auto
  show ?thesis
  proof (cases r0)
    case (Some x)
    with find_action_unloaded[OF l, of req p] assms acts show ?thesis by auto
  next
    case None
    with find_action_unloaded[OF l, of req p] assms
    have "find_action e req p st1 = (r, st')" by simp
    from find_action_loaded_cases[OF m this] assms(2) acts show ?thesis
      by (auto simp: update_conv')
  qed
qed

lemma step_keeps_entry:
  assumes "map_of (actions st) k = Some a" "\<not> touches k ev"
  shows "map_of (actions (step e ev st)) k = Some a"
proof (cases ev)
  case (Resolve req)
  obtain r st' where "find_action e req (request_path req) st = (r, st')" by force
  with find_action_keeps_entry[OF this assms(1)] Resolve show ?thesis by simp
next
  case (AddAction verb url h orig)
  with assms show ?thesis by (simp add: add_action_def update_conv')
next
  case (RemoveAction verb url)
  with assms show ?thesis by (simp add: remove_action_def delete_conv')
qed (use assms in \<open>simp_all add: enable_fallback_def\<close>)

lemma step_keeps_loaded:
  assumes "action_modules st \<noteq> None"
  shows "action_modules (step e ev st) \<noteq> None"
proof (cases ev)
  case (Resolve req)
  obtain r st' where "find_action e req (request_path req) st = (r, st')" by force
  with find_action_state_loaded[OF this] Resolve show ?thesis by simp
qed (use assms in \<open>simp_all add: add_action_def remove_action_def enable_fallback_def\<close>)

lemma step_resolve_loaded: "action_modules (step e (Resolve req) st) \<noteq> None"
proof -
  obtain r st' where "find_action e req (request_path req) st = (r, st')" by force
  with find_action_state_loaded[OF this] show ?thesis by simp
qed

lemma run_keeps_entry:
  assumes "map_of (actions st) k = Some a" "\<forall>ev \<in> set evs. \<not> touches k ev"
  shows "map_of (actions (run e evs st)) k = Some a"
  using assms unfolding run_def
  by (induction evs arbitrary: st) (simp_all add: step_keeps_entry)

lemma run_keeps_loaded:
  "action_modules st \<noteq> None \<Longrightarrow> action_modules (run e evs st) \<noteq> None"
  unfolding run_def
proof (induction evs arbitrary: st)
  case Nil
  then show ?case by simp
next
  case (Cons ev evs)
  from Cons.IH[OF step_keeps_loaded[OF Cons.prems]] show ?case by simp
qed

lemma run_resolve_loaded:
  "Resolve r \<in> set evs \<Longrightarrow> action_modules (run e evs st) \<noteq> None"
  unfolding run_def
proof (induction evs arbitrary: st)
  case Nil
  then show ?case by simp
next
  case (Cons ev evs)
  show ?case
  proof (cases "ev = Resolve r")
    case True
    then show ?thesis
      using run_keeps_loaded[OF step_resolve_loaded[of e r st], of e evs] by (simp add: run_def)
  next
    case False
    with Cons show ?thesis by simp
  qed
qed

text \<open>
  C1, as the code has it. An Action stored under an identifier stays there through every
  run of the process in which no \<^verbatim>\<open>add_action\<close> or \<^verbatim>\<open>remove_action\<close> is called for
  that identifier and the property \<^verbatim>\<open>actions\<close> is not assigned: resolutions, of this
  or any other request, never overwrite or delete it. Once the catalog has been loaded,
  which the first resolution of the process does, every resolution of a request with
  that identifier returns the stored Action and leaves the whole state as it is: no
  source is loaded, no descent or matching stores anything. Before that, the resolution
  first loads the sources and returns the stored Action unless the load raises.
\<close>

theorem cache_entry_stable:
  assumes "map_of (actions st) k = Some a"
    and "\<forall>ev \<in> set evs. \<not> touches k ev"
    and "request_identifier e req = k"
  shows "map_of (actions (run e evs st)) k = Some a \<and>
         (action_modules st \<noteq> None \<or> (\<exists>r. Resolve r \<in> set evs) \<longrightarrow>
            find_action e req p (run e evs st) = (Inr (Some a), run e evs st)) \<and>
         find_action e req p (run e evs st) =
           (case load_action_modules e (run e evs st) of
              (Some x, st1) \<Rightarrow> (Inl x, st1)
            | (None, st1) \<Rightarrow> (Inr (Some a), st1))"
proof -
  let ?st = "run e evs st"
  have entry: "map_of (actions ?st) k = Some a" using run_keeps_entry[OF assms(1,2)] .
  have hit: "find_action e req p ?st = (Inr (Some a), ?st)" if "action_modules ?st \<noteq> None"
    using find_action_cached[OF that, of e req a p] entry assms(3) by simp
  have 2: "action_modules st \<noteq> None \<or> (\<exists>r. Resolve r \<in> set evs) \<longrightarrow>
            find_action e req p ?st = (Inr (Some a), ?st)"
    using hit run_keeps_loaded run_resolve_loaded by blast
  obtain r0 st1 where l: "load_action_modules e ?st = (r0, st1)" by force
  from load_result[OF l] have ld: "action_modules st1 \<noteq> None"
    and acts: "actions st1 = actions ?st" by auto
  have "find_action e req p st1 = (Inr (Some a), st1)"
    using find_action_cached[OF ld, of e req a p] entry acts assms(3) by simp
  with find_action_unloaded[OF l, of req p] l
  have 3: "find_action e req p ?st =
           (case load_action_modules e ?st of
              (Some x, st1) \<Rightarrow> (Inl x, st1)
            | (None, st1) \<Rightarrow> (Inr (Some a), st1))"
    by (cases r0) simp_all
  from entry 2 3 show ?thesis by blast
qed

theorem cache_entry_stable_witness:
  "find_action (pkg_env [''x'']) (GET ''/x?q=1'') ''/x?q=1''
     (run (pkg_env [''x''])
        [Resolve (GET ''/y''), EnableFallback True,
         AddAction ''POST'' ''/x'' (Function (PyFunction ''site'' ''post_x'')) ''direct'']
        (run (pkg_env [''x'']) [Resolve (GET ''/x'')] (pkg_state False))) =
   (Inr (Some (Action (Function (PyFunction ''pkg'' ''x'')) ''direct''
                 [(''original_url'', Url (example_urlparse ''/x''))])),
    run (pkg_env [''x''])
        [Resolve (GET ''/y''), EnableFallback True,
         AddAction ''POST'' ''/x'' (Function (PyFunction ''site'' ''post_x'')) ''direct'']
        (run (pkg_env [''x'']) [Resolve (GET ''/x'')] (pkg_state False)))"
proof -
  let ?e = "pkg_env [''x'']"
  let ?st = "run ?e [Resolve (GET ''/x'')] (pkg_state False)"
  let ?evs = "[Resolve (GET ''/y''), EnableFallback True,
         AddAction ''POST'' ''/x'' (Function (PyFunction ''site'' ''post_x'')) ''direct'']"
  have 1: "map_of (actions ?st) ''GET /x'' =
             Some (Action (Function (PyFunction ''pkg'' ''x'')) ''direct''
                     [(''original_url'', Url (example_urlparse ''/x''))])"
    by code_simp
  have 2: "\<forall>ev \<in> set ?evs. \<not> touches ''GET /x'' ev"
    by code_simp
  have 3: "request_identifier ?e (GET ''/x?q=1'') = ''GET /x''"
    by code_simp
  have 4: "\<exists>r. Resolve r \<in> set ?evs"
    by (intro exI[of _ "GET ''/y''"]) simp
  from cache_entry_stable[OF 1 2 3, of "''/x?q=1''"] 4 show ?thesis
    by blast
qed

text \<open>
  C1, as it is stated, fails: the entry does not last for the life of the process when
  the program calls \<^verbatim>\<open>remove_action\<close>. After \<^verbatim>\<open>GET /x\<close> is resolved and stored,
  \<^verbatim>\<open>remove_action('GET', '/x')\<close> deletes the entry, and the next request with the same
  identifier, \<^verbatim>\<open>GET /x?q=1\<close>, is resolved through the sources again: it returns a new
  Action, bound to the URL of this request and not to that of the first.
\<close>

theorem cache_entry_removed:
  "map_of (actions (run (pkg_env [''x'']) [Resolve (GET ''/x'')] (pkg_state False))) ''GET /x'' =
     Some (Action (Function (PyFunction ''pkg'' ''x'')) ''direct''
             [(''original_url'', Url (example_urlparse ''/x''))]) \<and>
   request_identifier (pkg_env [''x'']) (GET ''/x?q=1'') = ''GET /x'' \<and>
   fst (find_action (pkg_env [''x'']) (GET ''/x?q=1'') ''/x?q=1''
         (run (pkg_env [''x'']) [Resolve (GET ''/x''), RemoveAction ''GET'' ''/x''] (pkg_state False))) =
     Inr (Some (Action (Function (PyFunction ''pkg'' ''x'')) ''direct''
             [(''original_url'', Url (example_urlparse ''/x?q=1''))])) \<and>
   example_urlparse ''/x?q=1'' \<noteq> example_urlparse ''/x''"
  by code_simp

section \<open>Dispatch\<close>

lemma dict_update_keys: "fst ` set (dict_update d e) = fst ` set d \<union> fst ` set e"
  unfolding dict_update_def
proof (induction e arbitrary: d)
  case Nil
  then show ?case by simp
next
  case (Cons p e)
  obtain k v where p: "p = (k, v)" by (cases p)
  have "fst ` set (AList.update k v d) = insert k (fst ` set d)"
    using dom_update[of k v d] by (simp add: dom_map_of_conv_image_fst)
  with Cons[of "AList.update k v d"] p show ?case by auto
qed

lemma call_keys:
  "call a kw = Invoked f kw' \<Longrightarrow> fst ` set kw' = bound_names a \<union> fst ` set kw"
  by (induction a kw rule: call.induct) (auto simp: dict_update_keys)

lemma call_total: "\<exists>f kw'. call a kw = Invoked f kw'"
  by (cases "call a kw") simp

lemma parameters_keys:
  "fst ` set (parameters_of e req form files) =
     {''url''} \<union> (if query (parsed_url e req) \<noteq> [] then {''query''} else {})
               \<union> (if nonempty form then {''form''} else {})
               \<union> (if nonempty files then {''files''} else {})"
  by (auto simp: parameters_of_def Let_def)

lemma setdefault_append_nonempty: "setdefault_append target f \<noteq> []"
  by (cases target) (auto simp: setdefault_append_def split: option.splits)

lemma sort_fields_form:
  "sort_fields l (form, files) = (form', files') \<Longrightarrow>
   (form' \<noteq> [] \<longleftrightarrow> form \<noteq> [] \<or> (\<exists>f \<in> set l. \<not> truthy (filename f))) \<and>
   (files' \<noteq> [] \<longleftrightarrow> files \<noteq> [] \<or> (\<exists>f \<in> set l. truthy (filename f)))"
proof (induction l arbitrary: form files)
  case Nil
  then show ?case by simp
next
  case (Cons f l)
  show ?case
  proof (cases "truthy (filename f)")
    case True
    with Cons.prems have "sort_fields l (form, setdefault_append files f) = (form', files')" by simp
    from Cons.IH[OF this] True setdefault_append_nonempty[of files f] show ?thesis by auto
  next
    case False
    with Cons.prems have "sort_fields l (setdefault_append form f, files) = (form', files')" by simp
    from Cons.IH[OF this] False setdefault_append_nonempty[of form f] show ?thesis by auto
  qed
qed

lemma dispatch_action:
  "find_action e req (request_path req) st = (Inr (Some (Action h orig b)), st') \<Longrightarrow>
   dispatch e req form files st =
     (Inr (Called (call (Action h orig b) (parameters_of e req form files))), st')"
  by (simp add: dispatch_def)

lemma dispatch_miss:
  "find_action e req (request_path req) st = (Inr None, st') \<Longrightarrow>
   dispatch e req form files st = (Inr Sent404, st')"
  by (simp add: dispatch_def)

text \<open>
  C9, as the code has it. For every Action the resolution returns, \<^verbatim>\<open>_dispatch\<close> calls
  it with the request and the parameters, and the function that finally runs receives
  the keyword arguments bound in the Action together with the parameters: \<^verbatim>\<open>url\<close>
  always, \<^verbatim>\<open>query\<close> exactly when the query string is not empty, \<^verbatim>\<open>form\<close> exactly
  when the form dict is not empty, \<^verbatim>\<open>files\<close> exactly when the files dict is not empty.
  An Action stored by the resolver binds \<^verbatim>\<open>original_url\<close>; an error Action around a
  plain function binds nothing. When the resolution returns nothing, the 404 error is
  sent and no handler is called. In \<^verbatim>\<open>do_POST\<close> the form dict is not empty exactly when
  a posted field has no file name, the files dict exactly when one has a file name.
\<close>

theorem dispatch_parameters:
  "(find_action e req (request_path req) st = (Inr (Some (Action h orig b)), st') \<longrightarrow>
      (\<exists>f kw. dispatch e req form files st = (Inr (Called (Invoked f kw)), st') \<and>
              call (Action h orig b) (parameters_of e req form files) = Invoked f kw \<and>
              fst ` set kw = bound_names (Action h orig b) \<union>
                 ({''url''} \<union> (if query (parsed_url e req) \<noteq> [] then {''query''} else {})
                   \<union> (if nonempty form then {''form''} else {})
                   \<union> (if nonempty files then {''files''} else {})))) \<and>
   (find_action e req (request_path req) st = (Inr None, st') \<longrightarrow>
      dispatch e req form files st = (Inr Sent404, st')) \<and>
   (save_action e req k meth orig' st = (a, st2) \<longrightarrow> bound_names a = {''original_url''}) \<and>
   (find_404 acts ps = Some (Action (Function g) orig'' b') \<longrightarrow> bound_names (Action (Function g) orig'' b') = {}) \<and>
   (sort_fields l ([], []) = (form', files') \<longrightarrow>
      (nonempty (Some form') \<longleftrightarrow> (\<exists>x \<in> set l. \<not> truthy (filename x))) \<and>
      (nonempty (Some files') \<longleftrightarrow> (\<exists>x \<in> set l. truthy (filename x))) \<and>
      do_POST e req (Some l) st = dispatch e req (Some form') (Some files') st)"
proof -
  have 1: "find_action e req (request_path req) st = (Inr (Some (Action h orig b)), st') \<longrightarrow>
      (\<exists>f kw. dispatch e req form files st = (Inr (Called (Invoked f kw)), st') \<and>
              call (Action h orig b) (parameters_of e req form files) = Invoked f kw \<and>
              fst ` set kw = bound_names (Action h orig b) \<union>
                 ({''url''} \<union> (if query (parsed_url e req) \<noteq> [] then {''query''} else {})
                   \<union> (if nonempty form then {''form''} else {})
                   \<union> (if nonempty files then {''files''} else {})))"
  proof
    assume fa: "find_action e req (request_path req) st = (Inr (Some (Action h orig b)), st')"
    obtain f kw where c: "call (Action h orig b) (parameters_of e req form files) = Invoked f kw"
      using call_total by blast
    from call_keys[OF c] parameters_keys[of e req form files]
    have "fst ` set kw = bound_names (Action h orig b) \<union>
                 ({''url''} \<union> (if query (parsed_url e req) \<noteq> [] then {''query''} else {})
                   \<union> (if nonempty form then {''form''} else {})
                   \<union> (if nonempty files then {''files''} else {}))"
      by simp
    with dispatch_action[OF fa, of form files] c show "\<exists>f kw. dispatch e req form files st = (Inr (Called (Invoked f kw)), st') \<and>
              call (Action h orig b) (parameters_of e req form files) = Invoked f kw \<and>
              fst ` set kw = bound_names (Action h orig b) \<union>
                 ({''url''} \<union> (if query (parsed_url e req) \<noteq> [] then {''query''} else {})
                   \<union> (if nonempty form then {''form''} else {})
                   \<union> (if nonempty files then {''files''} else {}))"
      by auto
  qed
  have 3: "save_action e req k meth orig' st = (a, st2) \<longrightarrow> bound_names a = {''original_url''}"
    by (auto simp: save_action_def Let_def)
  have 4: "find_404 acts ps = Some (Action (Function g) orig'' b') \<longrightarrow>
             bound_names (Action (Function g) orig'' b') = {}"
    using find_404_not_stored[of acts ps "Action (Function g) orig'' b'"] by auto
  have 5: "sort_fields l ([], []) = (form', files') \<longrightarrow>
      (nonempty (Some form') \<longleftrightarrow> (\<exists>x \<in> set l. \<not> truthy (filename x))) \<and>
      (nonempty (Some files') \<longleftrightarrow> (\<exists>x \<in> set l. truthy (filename x))) \<and>
      do_POST e req (Some l) st = dispatch e req (Some form') (Some files') st"
    using sort_fields_form[of l "[]" "[]" form' files']
    by (auto simp: nonempty_def do_POST_def)
  from 1 dispatch_miss[of e req st st' form files] 3 4 5 show ?thesis by blast
qed

theorem dispatch_parameters_witness:
  "(\<exists>f kw. dispatch (pkg_env [''post_add'']) (POST ''/add?x=1'')
              (Some [(''y'', [\<lparr>name = ''y'', filename = None, fvalue = ''2''\<rparr>])]) (Some [])
              (pkg_state False) =
            (Inr (Called (Invoked f kw)),
             snd (find_action (pkg_env [''post_add'']) (POST ''/add?x=1'') ''/add?x=1''
                    (pkg_state False))) \<and>
          fst ` set kw = {''original_url'', ''url'', ''query'', ''form''}) \<and>
   dispatch (pkg_env []) (GET ''/nowhere'') None None (pkg_state False) =
     (Inr Sent404, snd (find_action (pkg_env []) (GET ''/nowhere'') ''/nowhere'' (pkg_state False))) \<and>
   bound_names (fst (save_action (pkg_env [''post_add'']) (POST ''/add?x=1'') ''POST /add''
                       (PyFunction ''pkg'' ''post_add'') ''direct'' (pkg_state False))) =
     {''original_url''} \<and>
   bound_names (Action (Function (PyFunction ''site'' ''get_missing'')) ''error'' []) = {} \<and>
   nonempty (Some [(''y'', [\<lparr>name = ''y'', filename = None, fvalue = ''2''\<rparr>])]) \<and>
   \<not> nonempty (Some ([] :: fields)) \<and>
   do_POST (pkg_env [''post_add'']) (POST ''/add?x=1'')
       (Some [\<lparr>name = ''y'', filename = None, fvalue = ''2''\<rparr>]) (pkg_state False) =
     dispatch (pkg_env [''post_add'']) (POST ''/add?x=1'')
       (Some [(''y'', [\<lparr>name = ''y'', filename = None, fvalue = ''2''\<rparr>])]) (Some [])
       (pkg_state False)"
proof -
  let ?e = "pkg_env [''post_add'']"
  let ?r = "POST ''/add?x=1''"
  let ?b = "[(''original_url'', Url (example_urlparse ''/add?x=1''))]"
  let ?a = "Action (Function (PyFunction ''pkg'' ''post_add'')) ''direct'' ?b"
  let ?st' = "snd (find_action ?e ?r ''/add?x=1'' (pkg_state False))"
  let ?y = "\<lparr>name = ''y'', filename = None, fvalue = ''2''\<rparr>"
  let ?form = "Some [(''y'', [?y])]"
  let ?sa = "save_action ?e ?r ''POST /add'' (PyFunction ''pkg'' ''post_add'') ''direct''
               (pkg_state False)"
  let ?stm = "snd (find_action (pkg_env []) (GET ''/nowhere'') ''/nowhere'' (pkg_state False))"
  note tA = dispatch_parameters[where e = ?e and req = ?r and st = "pkg_state False"
      and h = "Function (PyFunction ''pkg'' ''post_add'')" and orig = "''direct''" and b = ?b
      and st' = ?st' and form = ?form and files = "Some []"
      and k = "''POST /add''" and meth = "PyFunction ''pkg'' ''post_add''"
      and orig' = "''direct''" and a = "fst ?sa" and ?st2.0 = "snd ?sa"
      and acts = not_found_handlers and ps = "[''GET'', ''ANY'', '''']"
      and g = "PyFunction ''site'' ''get_missing''" and orig'' = "''error''" and b' = "[]"
      and l = "[?y]" and form' = "[(''y'', [?y])]" and files' = "[]"]
  note tB = dispatch_parameters[where e = "pkg_env []" and req = "GET ''/nowhere''"
      and st = "pkg_state False" and st' = ?stm and form = None and files = None]
  have p: "request_path ?r = ''/add?x=1''"
    by (simp add: POST_def)
  have "fst (find_action ?e ?r ''/add?x=1'' (pkg_state False)) = Inr (Some ?a)"
    by code_simp
  then have fa: "find_action ?e ?r (request_path ?r) (pkg_state False) = (Inr (Some ?a), ?st')"
    by (simp add: prod_eq_iff p)
  have q: "query (parsed_url ?e ?r) \<noteq> []"
    by code_simp
  have n: "nonempty ?form" "\<not> nonempty (Some ([] :: fields))"
    by (simp_all add: nonempty_def)
  from tA[THEN conjunct1, rule_format, OF fa]
  obtain f kw where d: "dispatch ?e ?r ?form (Some []) (pkg_state False) =
        (Inr (Called (Invoked f kw)), ?st')"
    and k: "fst ` set kw = bound_names ?a \<union>
                 ({''url''} \<union> (if query (parsed_url ?e ?r) \<noteq> [] then {''query''} else {})
                   \<union> (if nonempty ?form then {''form''} else {})
                   \<union> (if nonempty (Some []) then {''files''} else {}))"
    by (elim exE conjE)
  from k q n have "fst ` set kw = {''original_url'', ''url'', ''query'', ''form''}"
    by auto
  with d have c1: "\<exists>f kw. dispatch ?e ?r ?form (Some []) (pkg_state False) =
            (Inr (Called (Invoked f kw)), ?st') \<and>
          fst ` set kw = {''original_url'', ''url'', ''query'', ''form''}"
    by blast
  have pm: "request_path (GET ''/nowhere'') = ''/nowhere''"
    by (simp add: GET_def)
  have "fst (find_action (pkg_env []) (GET ''/nowhere'') ''/nowhere'' (pkg_state False)) = Inr None"
    by code_simp
  then have fm: "find_action (pkg_env []) (GET ''/nowhere'') (request_path (GET ''/nowhere''))
                   (pkg_state False) = (Inr None, ?stm)"
    by (simp add: prod_eq_iff pm)
  have c2: "dispatch (pkg_env []) (GET ''/nowhere'') None None (pkg_state False) =
              (Inr Sent404, ?stm)"
    using tB[THEN conjunct2, THEN conjunct1, rule_format, OF fm] .
  have h3: "?sa = (fst ?sa, snd ?sa)"
    by simp
  have c3: "bound_names (fst ?sa) = {''original_url''}"
    using tA[THEN conjunct2, THEN conjunct2, THEN conjunct1, rule_format, OF h3] .
  have h4: "find_404 not_found_handlers [''GET'', ''ANY'', ''''] =
              Some (Action (Function (PyFunction ''site'' ''get_missing'')) ''error'' [])"
    by code_simp
  have c4: "bound_names (Action (Function (PyFunction ''site'' ''get_missing'')) ''error'' []) = {}"
    using tA[THEN conjunct2, THEN conjunct2, THEN conjunct2, THEN conjunct1, rule_format, OF h4] .
  have h5: "sort_fields [?y] ([], []) = ([(''y'', [?y])], [])"
    by code_simp
  note c5 = tA[THEN conjunct2, THEN conjunct2, THEN conjunct2, THEN conjunct2, rule_format, OF h5]
  from c5 have c5c: "do_POST ?e ?r (Some [?y]) (pkg_state False) =
      dispatch ?e ?r ?form (Some []) (pkg_state False)"
    by (elim conjE)
  from c1 c2 c3 c4 n c5c show ?thesis by (intro conjI)
qed

text \<open>
  C9, as it is stated, fails: the handler does not receive exactly the request,
  \<^verbatim>\<open>url\<close> and the optional \<^verbatim>\<open>query\<close>, \<^verbatim>\<open>form\<close> and \<^verbatim>\<open>files\<close>. For \<^verbatim>\<open>GET /x\<close>
  without query string, form or files, resolved to the function \<^verbatim>\<open>x\<close> of a package,
  the function is called with \<^verbatim>\<open>original_url\<close> besides \<^verbatim>\<open>url\<close>.
\<close>

theorem dispatch_passes_original_url:
  "fst (dispatch (pkg_env [''x'']) (GET ''/x'') None None (pkg_state False)) =
     Inr (Called (Invoked (PyFunction ''pkg'' ''x'')
            [(''original_url'', Url (example_urlparse ''/x'')),
             (''url'', Url (example_urlparse ''/x''))])) \<and>
   query (parsed_url (pkg_env [''x'']) (GET ''/x'')) = [] \<and>
   map fst [(''original_url'', Url (example_urlparse ''/x'')),
            (''url'', Url (example_urlparse ''/x''))] \<noteq> [''url'']"
  by code_simp

section \<open>Descent into a source given by its module name\<close>










section \<open>Loading the catalog\<close>

lemma load_sources_append:
  "load_sources e (xs @ ys) ms =
     (case load_sources e xs ms of
        (Some x, ms') \<Rightarrow> (Some x, ms')
      | (None, ms') \<Rightarrow> load_sources e ys ms')"
  by (induction xs arbitrary: ms) (auto split: prod.splits option.splits)

lemma load_source_str_missing:
  assumes "s \<noteq> []" "not_found (find_spec e sp s)"
  shows "load_source e (Str s) (mods, sp) = (None, mods, sp)"
  using assms
  by (auto simp: load_source_def source_name_def source_path_def truthy_def find_spec_item_def
      not_found_def)

lemma load_source_str_raises:
  assumes "s \<noteq> []" "find_spec e sp s = FindRaises x \<or> find_spec e sp s = Spec (LoadRaises x)"
    "x \<noteq> ModuleNotFoundError"
  shows "load_source e (Str s) (mods, sp) = (Some x, mods, sp)"
  using assms
  by (auto simp: load_source_def source_name_def source_path_def truthy_def find_spec_item_def)

lemma load_source_path_missing:
  assumes "map_of d ''module'' = None" "map_of d ''package'' = None" "map_of d ''path'' = Some pth"
    "pth \<noteq> []"
    "import_module e (sp @ [abspath e pth]) (basename (abspath e pth)) = LoadRaises ModuleNotFoundError"
  shows "load_source e (Dict d) (mods, sp) = (None, mods, sp @ [abspath e pth])"
  using assms
  by (simp add: load_source_def source_name_def source_path_def truthy_def Let_def)

lemma find_action_keeps_catalog:
  assumes "action_modules st = Some cat" "find_action e req p st = (r, st')"
  shows "action_modules st' = Some cat"
  using find_action_loaded_cases[OF assms] assms(1) by auto

lemma step_keeps_catalog:
  assumes "action_modules st = Some cat"
  shows "action_modules (step e ev st) = Some cat"
proof (cases ev)
  case (Resolve req)
  obtain r st' where f: "find_action e req (request_path req) st = (r, st')" by force
  from find_action_keeps_catalog[OF assms f] f Resolve show ?thesis by simp
qed (use assms in \<open>simp_all add: add_action_def remove_action_def enable_fallback_def\<close>)

lemma run_keeps_catalog:
  "action_modules st = Some cat \<Longrightarrow> action_modules (run e evs st) = Some cat"
  unfolding run_def
proof (induction evs arbitrary: st)
  case Nil
  then show ?case by simp
next
  case (Cons ev evs)
  from Cons.IH[OF step_keeps_catalog[OF Cons.prems]] show ?case by simp
qed

lemma load_raise_reaches_caller:
  "load_action_modules e st = (Some x, st1) \<Longrightarrow> find_action e req p st = (Inl x, st1)"
  using find_action_unloaded[of e st "Some x" st1 req p] by simp

text \<open>
  C6, as the code has it. A source configured by a module name for which nothing is found
  is dropped without a trace: the sources before it having loaded, the load goes on as
  if the source had not been configured. A source configured by a path whose import
  raises \<^verbatim>\<open>ModuleNotFoundError\<close> is dropped as well; only its entry in \<^verbatim>\<open>sys.path\<close>
  stays. The catalog is loaded once: a later call does nothing, also after a load that
  raised, and no event of the process changes a loaded catalog, so a dropped source is
  never tried again and never contributes a handler. An exception other than
  \<^verbatim>\<open>ModuleNotFoundError\<close> raised by the lookup or the load of a named source ends the
  load and reaches the caller of the resolution.
\<close>

theorem missing_source_dropped:
  "(load_sources e xs ms = (None, mods, sp) \<and> s \<noteq> [] \<and> not_found (find_spec e sp s) \<longrightarrow>
      load_sources e (xs @ Str s # ys) ms = load_sources e (xs @ ys) ms) \<and>
   (load_sources e xs ms = (None, mods, sp) \<and>
    map_of d ''module'' = None \<and> map_of d ''package'' = None \<and> map_of d ''path'' = Some pth \<and>
    pth \<noteq> [] \<and>
    import_module e (sp @ [abspath e pth]) (basename (abspath e pth)) = LoadRaises ModuleNotFoundError \<longrightarrow>
      load_sources e (xs @ Dict d # ys) ms = load_sources e ys (mods, sp @ [abspath e pth])) \<and>
   (action_modules st \<noteq> None \<longrightarrow> load_action_modules e st = (None, st)) \<and>
   (load_action_modules e st = (r, st1) \<longrightarrow> action_modules st1 \<noteq> None) \<and>
   (action_modules st = Some cat \<longrightarrow> action_modules (run e evs st) = Some cat) \<and>
   (load_sources e xs ms = (None, mods, sp) \<and> s \<noteq> [] \<and>
    (find_spec e sp s = FindRaises x \<or> find_spec e sp s = Spec (LoadRaises x)) \<and>
    x \<noteq> ModuleNotFoundError \<longrightarrow>
      load_sources e (xs @ Str s # ys) ms = (Some x, mods, sp)) \<and>
   (load_action_modules e st = (Some x, st1) \<longrightarrow> find_action e req p st = (Inl x, st1))"
proof -
  have 1: "load_sources e xs ms = (None, mods, sp) \<and> s \<noteq> [] \<and> not_found (find_spec e sp s) \<longrightarrow>
      load_sources e (xs @ Str s # ys) ms = load_sources e (xs @ ys) ms"
    by (auto simp: load_sources_append[of e xs] load_source_str_missing)
  have 2: "load_sources e xs ms = (None, mods, sp) \<and>
    map_of d ''module'' = None \<and> map_of d ''package'' = None \<and> map_of d ''path'' = Some pth \<and>
    pth \<noteq> [] \<and>
    import_module e (sp @ [abspath e pth]) (basename (abspath e pth)) = LoadRaises ModuleNotFoundError \<longrightarrow>
      load_sources e (xs @ Dict d # ys) ms = load_sources e ys (mods, sp @ [abspath e pth])"
    by (auto simp: load_sources_append[of e xs] load_source_path_missing)
  have 3: "action_modules st \<noteq> None \<longrightarrow> load_action_modules e st = (None, st)"
    using load_loaded by blast
  have 4: "load_action_modules e st = (r, st1) \<longrightarrow> action_modules st1 \<noteq> None"
    using load_result(1) by blast
  have 5: "action_modules st = Some cat \<longrightarrow> action_modules (run e evs st) = Some cat"
    using run_keeps_catalog by blast
  have 6: "load_sources e xs ms = (None, mods, sp) \<and> s \<noteq> [] \<and>
    (find_spec e sp s = FindRaises x \<or> find_spec e sp s = Spec (LoadRaises x)) \<and>
    x \<noteq> ModuleNotFoundError \<longrightarrow>
      load_sources e (xs @ Str s # ys) ms = (Some x, mods, sp)"
    using load_source_str_raises[of s e sp x mods]
    by (auto simp: load_sources_append[of e xs])
  have 7: "load_action_modules e st = (Some x, st1) \<longrightarrow> find_action e req p st = (Inl x, st1)"
    using load_raise_reaches_caller by blast
  from 1 2 3 4 5 6 7 show ?thesis by (intro conjI)
qed

theorem missing_source_dropped_witness:
  "load_sources broken_env ([] @ Str ''missing'' # [Str ''pkg'']) ([], []) =
     load_sources broken_env ([] @ [Str ''pkg'']) ([], []) \<and>
   load_sources broken_env ([] @ [Str ''pkg'']) ([], []) =
     (None, [(''pkg'', pkg_module [''any''], ''module'')], []) \<and>
   load_sources broken_env ([] @ Dict [(''path'', ''nowhere'')] # [Str ''pkg'']) ([], []) =
     load_sources broken_env [Str ''pkg''] ([], [] @ [abspath broken_env ''nowhere'']) \<and>
   load_action_modules broken_env nested_state = (None, nested_state) \<and>
   action_modules (run broken_env [Resolve (GET ''/x'')] nested_state) =
     Some [(''pkg'', pkg_module [], ''module'')] \<and>
   load_sources broken_env ([] @ Str ''broken'' # [Str ''pkg'']) ([], []) =
     (Some ImportError, [], []) \<and>
   find_action broken_env (GET ''/x'') ''/x'' (initial_state [Str ''broken'', Str ''pkg'']) =
     (Inl ImportError,
      (initial_state [Str ''broken'', Str ''pkg''])\<lparr>action_modules := Some [], sys_path := []\<rparr>)"
proof -
  let ?cat = "[(''pkg'', pkg_module [], ''module'')]"
  let ?st0 = "initial_state [Str ''broken'', Str ''pkg'']"
  let ?st1 = "?st0\<lparr>action_modules := Some [], sys_path := []\<rparr>"
  note tA = missing_source_dropped[where e = broken_env and xs = "[]" and ms = "([], [])"
      and mods = "[]" and sp = "[]" and s = "''missing''" and ys = "[Str ''pkg'']"
      and d = "[(''path'', ''nowhere'')]" and pth = "''nowhere''" and st = nested_state
      and cat = ?cat and evs = "[Resolve (GET ''/x'')]" and r = None and ?st1.0 = nested_state]
  note tB = missing_source_dropped[where e = broken_env and xs = "[]" and ms = "([], [])"
      and mods = "[]" and sp = "[]" and s = "''broken''" and x = ImportError
      and ys = "[Str ''pkg'']" and st = ?st0 and ?st1.0 = ?st1 and req = "GET ''/x''"
      and p = "''/x''"]
  have l0: "load_sources broken_env [] ([], []) = (None, [], [])"
    by simp
  have nf: "not_found (find_spec broken_env [] ''missing'')"
    by code_simp
  have h1: "load_sources broken_env [] ([], []) = (None, [], []) \<and> ''missing'' \<noteq> [] \<and>
            not_found (find_spec broken_env [] ''missing'')"
    using l0 nf by simp
  have imp: "import_module broken_env ([] @ [abspath broken_env ''nowhere''])
               (basename (abspath broken_env ''nowhere'')) = LoadRaises ModuleNotFoundError"
    by code_simp
  have h2: "load_sources broken_env [] ([], []) = (None, [], []) \<and>
            map_of [(''path'', ''nowhere'')] ''module'' = None \<and>
            map_of [(''path'', ''nowhere'')] ''package'' = None \<and>
            map_of [(''path'', ''nowhere'')] ''path'' = Some ''nowhere'' \<and> ''nowhere'' \<noteq> [] \<and>
            import_module broken_env ([] @ [abspath broken_env ''nowhere''])
               (basename (abspath broken_env ''nowhere'')) = LoadRaises ModuleNotFoundError"
    using l0 imp by simp
  have h3: "action_modules nested_state \<noteq> None"
    by (simp add: nested_state_def)
  have h5: "action_modules nested_state = Some ?cat"
    by (simp add: nested_state_def)
  have fs: "find_spec broken_env [] ''broken'' = Spec (LoadRaises ImportError)"
    by code_simp
  have h6: "load_sources broken_env [] ([], []) = (None, [], []) \<and> ''broken'' \<noteq> [] \<and>
            (find_spec broken_env [] ''broken'' = FindRaises ImportError \<or>
             find_spec broken_env [] ''broken'' = Spec (LoadRaises ImportError)) \<and>
            ImportError \<noteq> ModuleNotFoundError"
    using l0 fs by simp
  have h7: "load_action_modules broken_env ?st0 = (Some ImportError, ?st1)"
    by code_simp
  have c1: "load_sources broken_env ([] @ Str ''missing'' # [Str ''pkg'']) ([], []) =
     load_sources broken_env ([] @ [Str ''pkg'']) ([], [])"
    using tA[THEN conjunct1, rule_format, OF h1] .
  have c1': "load_sources broken_env ([] @ [Str ''pkg'']) ([], []) =
     (None, [(''pkg'', pkg_module [''any''], ''module'')], [])"
    by code_simp
  have c2: "load_sources broken_env ([] @ Dict [(''path'', ''nowhere'')] # [Str ''pkg'']) ([], []) =
     load_sources broken_env [Str ''pkg''] ([], [] @ [abspath broken_env ''nowhere''])"
    using tA[THEN conjunct2, THEN conjunct1, rule_format, OF h2] .
  have c3: "load_action_modules broken_env nested_state = (None, nested_state)"
    using tA[THEN conjunct2, THEN conjunct2, THEN conjunct1, rule_format, OF h3] .
  have c4: "action_modules nested_state \<noteq> None"
    using tA[THEN conjunct2, THEN conjunct2, THEN conjunct2, THEN conjunct1, rule_format, OF c3] .
  have c5: "action_modules (run broken_env [Resolve (GET ''/x'')] nested_state) = Some ?cat"
    using tA[THEN conjunct2, THEN conjunct2, THEN conjunct2, THEN conjunct2, THEN conjunct1,
        rule_format, OF h5] .
  have c6: "load_sources broken_env ([] @ Str ''broken'' # [Str ''pkg'']) ([], []) =
     (Some ImportError, [], [])"
    using tB[THEN conjunct2, THEN conjunct2, THEN conjunct2, THEN conjunct2, THEN conjunct2,
        THEN conjunct1, rule_format, OF h6] .
  have c7: "find_action broken_env (GET ''/x'') ''/x'' ?st0 = (Inl ImportError, ?st1)"
    using tB[THEN conjunct2, THEN conjunct2, THEN conjunct2, THEN conjunct2, THEN conjunct2,
        THEN conjunct2, rule_format, OF h7] .
  from c1 c1' c2 c3 c5 c6 c7 show ?thesis by (intro conjI)
qed

text \<open>
  C6, as it is stated, fails: a source that cannot be imported is not always dropped in
  silence. With the sources \<^verbatim>\<open>broken\<close> and \<^verbatim>\<open>pkg\<close> configured, the load of
  \<^verbatim>\<open>broken\<close> raises \<^verbatim>\<open>ImportError\<close>, and so does the first resolution.
\<close>

theorem broken_source_raises:
  "find_spec broken_env [] ''broken'' = Spec (LoadRaises ImportError) \<and>
   fst (find_action broken_env (GET ''/x'') ''/x'' (initial_state [Str ''broken'', Str ''pkg'']))
     = Inl ImportError"
  by code_simp

end
